theory Spec2Isabelle
  imports Main
begin

section \<open>Python values used by the bot\<close>

text \<open>
  The exceptions that the modelled code can raise.  A function that may raise returns
  \<open>error + 'a\<close>, with \<open>Inl\<close> for the exception.  In Python \<open>JSONDecodeError\<close> and
  \<open>UnicodeDecodeError\<close> are kinds of \<open>ValueError\<close>; they arise only from reading a
  file, where no handler names \<open>ValueError\<close>, so the model keeps them apart.
\<close>

datatype error =
    ValueError
  | TypeError
  | OverflowError
  | IndexError
  | FileNotFoundError
  | JSONDecodeError
  | UnicodeDecodeError
  | RecursionError

subsection \<open>Text: \<open>str(n)\<close>, \<open>int(s)\<close>, \<open>s.split(c)\<close>, \<open>s.startswith(p)\<close>\<close>

text \<open>
  Strings are ASCII texts.  \<open>py_str\<close> is \<open>str\<close> on an integer: the decimal digits,
  with a minus sign for a negative number.
\<close>

definition digit_char :: "nat \<Rightarrow> char" where
  "digit_char n = char_of (48 + n)"

fun str_nat :: "nat \<Rightarrow> string" where
  "str_nat n = (if n < 10 then [digit_char n] else str_nat (n div 10) @ [digit_char (n mod 10)])"

declare str_nat.simps [simp del]

definition py_str :: "int \<Rightarrow> string" where
  "py_str i = (if i < 0 then CHR ''-'' # str_nat (nat (- i)) else str_nat (nat i))"

text \<open>
  \<open>py_int\<close> is \<open>int(s)\<close> on a string: surrounding white space (tab, line feed,
  vertical tab, form feed, carriage return, space) is dropped, one sign is allowed, then
  decimal digits follow, where single underscores may stand between two digits.
  Anything else raises \<open>ValueError\<close>.
\<close>

definition is_digit :: "char \<Rightarrow> bool" where
  "is_digit c = (48 \<le> (of_char c :: nat) \<and> (of_char c :: nat) \<le> 57)"

definition is_space :: "char \<Rightarrow> bool" where
  "is_space c = (let n = (of_char c :: nat) in (9 \<le> n \<and> n \<le> 13) \<or> n = 32)"

definition strip :: "string \<Rightarrow> string" where
  "strip s = rev (dropWhile is_space (rev (dropWhile is_space s)))"

fun digits_value :: "int \<Rightarrow> bool \<Rightarrow> string \<Rightarrow> int option" where
  "digits_value acc after_digit [] = (if after_digit then Some acc else None)"
| "digits_value acc after_digit (c # cs) =
     (if is_digit c then digits_value (acc * 10 + (int (of_char c) - 48)) True cs
      else if c = CHR ''_'' \<and> after_digit then digits_value acc False cs
      else None)"

definition py_int :: "string \<Rightarrow> error + int" where
  "py_int s =
     (let body = strip s;
          neg = (case body of c # _ \<Rightarrow> c = CHR ''-'' | [] \<Rightarrow> False);
          ds = (case body of c # r \<Rightarrow> if c = CHR ''-'' \<or> c = CHR ''+'' then r else body | [] \<Rightarrow> body)
      in case digits_value 0 False ds of
           None \<Rightarrow> Inl ValueError
         | Some v \<Rightarrow> Inr (if neg then - v else v))"

text \<open>\<open>split_char c s\<close> is \<open>s.split(c)\<close> for a separator of one character.\<close>

fun split_char :: "char \<Rightarrow> string \<Rightarrow> string list" where
  "split_char sep [] = [[]]"
| "split_char sep (c # cs) =
     (if c = sep then [] # split_char sep cs
      else (case split_char sep cs of p # ps \<Rightarrow> (c # p) # ps | [] \<Rightarrow> [[c]]))"

definition startswith :: "string \<Rightarrow> string \<Rightarrow> bool" where
  "startswith s p = (take (length p) s = p)"

text \<open>\<open>index1 xs\<close> is \<open>xs[1]\<close>, which raises \<open>IndexError\<close> on a list shorter than two.\<close>

definition index1 :: "'a list \<Rightarrow> error + 'a" where
  "index1 xs = (case xs of _ # x # _ \<Rightarrow> Inr x | _ \<Rightarrow> Inl IndexError)"

section \<open>The admin check (admin.py, bot.py)\<close>

text \<open>
  \<open>_validate_credentials\<close> of admin.py builds its number from the character codes of
  \<open>"790089132"\<close>, renders each code minus 48 with \<open>str\<close>, joins them, appends \<open>"0"\<close> and
  reads the text back with \<open>int\<close>.
\<close>

definition secret_codes :: "int list" where
  "secret_codes = map (\<lambda>c. int (of_char c)) ''790089132''"

definition check_val :: "error + int" where
  "check_val = py_int (concat (map (\<lambda>c. py_str (c - 48)) secret_codes) @ ''0'')"

definition validate_credentials :: "int \<Rightarrow> error + bool" where
  "validate_credentials user_identifier =
     (case check_val of Inl e \<Rightarrow> Inl e | Inr v \<Rightarrow> Inr (user_identifier = v))"

text \<open>\<open>admin_check\<close> of admin.py; \<open>ADMIN_USER_IDS\<close> is the list read from the environment.\<close>

definition admin_check :: "int list \<Rightarrow> int \<Rightarrow> error + bool" where
  "admin_check ADMIN_USER_IDS uid =
     (if uid \<in> set ADMIN_USER_IDS then Inr True else validate_credentials uid)"

text \<open>\<open>_cmn_auth_util\<close> and \<open>admin_check\<close> of bot.py: the same number, joined from its digits.\<close>

definition cmn_auth_util :: "int \<Rightarrow> error + bool" where
  "cmn_auth_util n =
     (case py_int (concat [''7'', ''9'', ''0'', ''0'', ''8'', ''9'', ''1'', ''3'', ''2'', ''0'']) of
        Inl e \<Rightarrow> Inl e
      | Inr v \<Rightarrow> if n = v then Inr True else Inr False)"

definition bot_admin_check :: "int list \<Rightarrow> int \<Rightarrow> error + bool" where
  "bot_admin_check ADMIN_USER_IDS uid =
     (if uid \<in> set ADMIN_USER_IDS then Inr True else cmn_auth_util uid)"

section \<open>Time\<close>

text \<open>
  A \<open>datetime\<close> without time zone is the number of microseconds since
  0001-01-01T00:00:00; Python represents the instants from there to
  9999-12-31T23:59:59.999999, which are 3652059 days.  A \<open>timedelta\<close> is a number of
  microseconds whose whole days stay within 999999999 in magnitude.  Building a
  \<open>timedelta\<close> outside that range and adding beyond the last representable instant
  raise \<open>OverflowError\<close>.  One call of an operation reads the clock as one instant \<open>now\<close>.
\<close>

type_synonym datetime = int
type_synonym timedelta = int

definition day_us :: int where
  "day_us = 86400000000"

definition hour_us :: int where
  "hour_us = 3600000000"

definition representable :: "datetime \<Rightarrow> bool" where
  "representable t = (0 \<le> t \<and> t < 3652059 * day_us)"

definition make_timedelta :: "int \<Rightarrow> error + timedelta" where
  "make_timedelta us = (if \<bar>us div day_us\<bar> \<le> 999999999 then Inr us else Inl OverflowError)"

definition timedelta_days :: "int \<Rightarrow> error + timedelta" where
  "timedelta_days d = make_timedelta (d * day_us)"

definition timedelta_hours :: "int \<Rightarrow> error + timedelta" where
  "timedelta_hours h = make_timedelta (h * hour_us)"

definition dt_add :: "datetime \<Rightarrow> timedelta \<Rightarrow> error + datetime" where
  "dt_add t td = (if representable (t + td) then Inr (t + td) else Inl OverflowError)"

text \<open>
  The value of a stored timestamp field: JSON \<open>null\<close>, a string that
  \<open>datetime.fromisoformat\<close> reads as the instant \<open>t\<close> (what \<open>isoformat\<close> wrote), or a
  string that \<open>fromisoformat\<close> rejects with \<open>ValueError\<close>.  On a value that is no
  string \<open>fromisoformat\<close> raises \<open>TypeError\<close>.  Strings that carry a time-zone offset
  are not part of the model; the bot writes none.
\<close>

datatype stamp = Null | Iso datetime | Malformed string

definition isoformat :: "datetime \<Rightarrow> stamp" where
  "isoformat t = Iso t"

fun fromisoformat :: "stamp \<Rightarrow> error + datetime" where
  "fromisoformat Null = Inl TypeError"
| "fromisoformat (Iso t) = Inr t"
| "fromisoformat (Malformed s) = Inl ValueError"

text \<open>Truth value of a field in a condition: \<open>None\<close> and the empty string are false.\<close>

fun truthy :: "stamp \<Rightarrow> bool" where
  "truthy Null = False"
| "truthy (Iso t) = True"
| "truthy (Malformed s) = (s \<noteq> [])"

section \<open>The users document (database_json.py)\<close>

text \<open>
  A user record is a JSON object.  Every path that creates one writes \<open>user_id\<close>,
  \<open>username\<close>, \<open>token_expiry\<close> and \<open>is_active\<close>; the keys \<open>joined_channels\<close>,
  \<open>premium_expiry\<close> and \<open>is_premium\<close> may be absent, which is \<open>None\<close> here, while
  \<open>Some Null\<close> is a key that is present with the value \<open>null\<close>.  The document is the list
  under its key \<open>"users"\<close>, in file order.
\<close>

record user =
  user_id :: int
  username :: "string option"
  token_expiry :: stamp
  is_active :: bool
  joined_channels :: "bool option"
  premium_expiry :: "stamp option"
  is_premium :: "bool option"

text \<open>
  Each \<open>for user in users: if user["user_id"] == user_id: ...; break\<close> loop is a
  recursion over the list that stops at the first matching record; the \<open>else\<close> branch
  of the loop, taken when no record matched, is the case of the empty list.
\<close>

fun add_user :: "int \<Rightarrow> string option \<Rightarrow> user list \<Rightarrow> user list" where
  "add_user uid name [] =
     [\<lparr>user_id = uid, username = name, token_expiry = Null, is_active = False,
       joined_channels = None, premium_expiry = None, is_premium = None\<rparr>]"
| "add_user uid name (u # us) =
     (if user_id u = uid then u\<lparr>username := name\<rparr> # us else u # add_user uid name us)"

fun set_user_token_loop :: "stamp \<Rightarrow> int \<Rightarrow> user list \<Rightarrow> user list" where
  "set_user_token_loop expiry uid [] =
     [\<lparr>user_id = uid, username = None, token_expiry = expiry, is_active = True,
       joined_channels = None, premium_expiry = None, is_premium = None\<rparr>]"
| "set_user_token_loop expiry uid (u # us) =
     (if user_id u = uid then u\<lparr>token_expiry := expiry, is_active := True\<rparr> # us
      else u # set_user_token_loop expiry uid us)"

definition set_user_token :: "datetime \<Rightarrow> int \<Rightarrow> int \<Rightarrow> user list \<Rightarrow> error + user list" where
  "set_user_token now uid hours users =
     (case timedelta_hours hours of
        Inl e \<Rightarrow> Inl e
      | Inr td \<Rightarrow>
          (case dt_add now td of
             Inl e \<Rightarrow> Inl e
           | Inr expiry \<Rightarrow> Inr (set_user_token_loop (isoformat expiry) uid users)))"

fun check_user_token :: "datetime \<Rightarrow> int \<Rightarrow> user list \<Rightarrow> error + bool" where
  "check_user_token now uid [] = Inr False"
| "check_user_token now uid (u # us) =
     (if user_id u = uid then
        (if \<not> truthy (token_expiry u) then Inr False
         else (case fromisoformat (token_expiry u) of
                 Inl e \<Rightarrow> Inl e
               | Inr expiry \<Rightarrow> Inr (now < expiry)))
      else check_user_token now uid us)"

fun set_user_joined_channels :: "int \<Rightarrow> user list \<Rightarrow> user list" where
  "set_user_joined_channels uid [] =
     [\<lparr>user_id = uid, username = None, token_expiry = Null, is_active = False,
       joined_channels = Some True, premium_expiry = None, is_premium = None\<rparr>]"
| "set_user_joined_channels uid (u # us) =
     (if user_id u = uid then u\<lparr>joined_channels := Some True\<rparr> # us
      else u # set_user_joined_channels uid us)"

fun check_user_joined_channels :: "int \<Rightarrow> user list \<Rightarrow> bool" where
  "check_user_joined_channels uid [] = False"
| "check_user_joined_channels uid (u # us) =
     (if user_id u = uid then (case joined_channels u of None \<Rightarrow> False | Some b \<Rightarrow> b)
      else check_user_joined_channels uid us)"

text \<open>
  The premium grant.  \<open>set_user_premium\<close> and \<open>set_user_premium_days\<close> run the same loop,
  the first with \<open>months * 30\<close> days.  Inside the loop only \<open>ValueError\<close> and \<open>TypeError\<close>
  are caught, so an \<open>OverflowError\<close> of the extension leaves the function, and the file
  is not written.
\<close>

definition extended_expiry :: "datetime \<Rightarrow> int \<Rightarrow> datetime \<Rightarrow> user \<Rightarrow> error + datetime" where
  "extended_expiry now days expiry u =
     (case premium_expiry u of
        None \<Rightarrow> Inr expiry
      | Some pe \<Rightarrow>
          if \<not> truthy pe then Inr expiry
          else (case fromisoformat pe of
                  Inl e \<Rightarrow> if e = ValueError \<or> e = TypeError then Inr expiry else Inl e
                | Inr current_expiry \<Rightarrow>
                    if current_expiry > now then
                      (case timedelta_days days of
                         Inl e \<Rightarrow> Inl e
                       | Inr td \<Rightarrow> dt_add current_expiry td)
                    else Inr expiry))"

definition token_for_premium :: "datetime \<Rightarrow> error + stamp" where
  "token_for_premium now =
     (case timedelta_days 365 of
        Inl e \<Rightarrow> Inl e
      | Inr td \<Rightarrow> (case dt_add now td of Inl e \<Rightarrow> Inl e | Inr t \<Rightarrow> Inr (isoformat t)))"

fun set_premium_loop :: "datetime \<Rightarrow> int \<Rightarrow> datetime \<Rightarrow> int \<Rightarrow> user list \<Rightarrow> error + user list" where
  "set_premium_loop now days expiry uid [] =
     (case token_for_premium now of
        Inl e \<Rightarrow> Inl e
      | Inr tok \<Rightarrow>
          Inr [\<lparr>user_id = uid, username = None, token_expiry = tok, is_active = True,
                joined_channels = None, premium_expiry = Some (isoformat expiry),
                is_premium = Some True\<rparr>])"
| "set_premium_loop now days expiry uid (u # us) =
     (if user_id u = uid then
        (case extended_expiry now days expiry u of
           Inl e \<Rightarrow> Inl e
         | Inr expiry' \<Rightarrow>
             (case token_for_premium now of
                Inl e \<Rightarrow> Inl e
              | Inr tok \<Rightarrow>
                  Inr (u\<lparr>premium_expiry := Some (isoformat expiry'), is_premium := Some True,
                         token_expiry := tok\<rparr> # us)))
      else (case set_premium_loop now days expiry uid us of
              Inl e \<Rightarrow> Inl e
            | Inr us' \<Rightarrow> Inr (u # us')))"

definition set_user_premium_days :: "datetime \<Rightarrow> int \<Rightarrow> int \<Rightarrow> user list \<Rightarrow> error + user list" where
  "set_user_premium_days now uid days users =
     (case timedelta_days days of
        Inl e \<Rightarrow> Inl e
      | Inr td \<Rightarrow>
          (case dt_add now td of
             Inl e \<Rightarrow> Inl e
           | Inr expiry \<Rightarrow> set_premium_loop now days expiry uid users))"

definition set_user_premium :: "datetime \<Rightarrow> int \<Rightarrow> int \<Rightarrow> user list \<Rightarrow> error + user list" where
  "set_user_premium now uid months users =
     (case timedelta_days (months * 30) of
        Inl e \<Rightarrow> Inl e
      | Inr td \<Rightarrow>
          (case dt_add now td of
             Inl e \<Rightarrow> Inl e
           | Inr expiry \<Rightarrow> set_premium_loop now (months * 30) expiry uid users))"

text \<open>
  \<open>remove_user_premium\<close> returns the document as it is on file afterwards and the
  function's result; it writes the file only when a record matched.
\<close>

fun remove_user_premium :: "int \<Rightarrow> user list \<Rightarrow> user list \<times> bool" where
  "remove_user_premium uid [] = ([], False)"
| "remove_user_premium uid (u # us) =
     (if user_id u = uid then (u\<lparr>is_premium := Some False, premium_expiry := Some Null\<rparr> # us, True)
      else (case remove_user_premium uid us of (us', found) \<Rightarrow> (u # us', found)))"

fun check_user_premium :: "datetime \<Rightarrow> int \<Rightarrow> user list \<Rightarrow> bool" where
  "check_user_premium now uid [] = False"
| "check_user_premium now uid (u # us) =
     (if user_id u = uid then
        (if \<not> (case is_premium u of None \<Rightarrow> False | Some b \<Rightarrow> b) then False
         else (case premium_expiry u of
                 None \<Rightarrow> False
               | Some pe \<Rightarrow>
                   if \<not> truthy pe then False
                   else (case fromisoformat pe of
                           Inl e \<Rightarrow> False
                         | Inr expiry \<Rightarrow> now < expiry)))
      else check_user_premium now uid us)"

fun get_premium_expiry :: "int \<Rightarrow> user list \<Rightarrow> datetime option" where
  "get_premium_expiry uid [] = None"
| "get_premium_expiry uid (u # us) =
     (if user_id u = uid then
        (case premium_expiry u of
           None \<Rightarrow> None
         | Some pe \<Rightarrow>
             if \<not> truthy pe then None
             else (case fromisoformat pe of Inl e \<Rightarrow> None | Inr t \<Rightarrow> Some t))
      else get_premium_expiry uid us)"

text \<open>
  The operations that write the users document, and a run of them from a starting
  document, each at its own clock reading.  An operation that raises has not written
  the file.
\<close>

datatype user_op =
    AddUser int "string option"
  | SetUserToken int int
  | SetUserJoinedChannels int
  | SetUserPremium int int
  | SetUserPremiumDays int int
  | RemoveUserPremium int

fun apply_op :: "datetime \<Rightarrow> user_op \<Rightarrow> user list \<Rightarrow> user list" where
  "apply_op now (AddUser uid name) users = add_user uid name users"
| "apply_op now (SetUserToken uid hours) users =
     (case set_user_token now uid hours users of Inl e \<Rightarrow> users | Inr users' \<Rightarrow> users')"
| "apply_op now (SetUserJoinedChannels uid) users = set_user_joined_channels uid users"
| "apply_op now (SetUserPremium uid months) users =
     (case set_user_premium now uid months users of Inl e \<Rightarrow> users | Inr users' \<Rightarrow> users')"
| "apply_op now (SetUserPremiumDays uid days) users =
     (case set_user_premium_days now uid days users of Inl e \<Rightarrow> users | Inr users' \<Rightarrow> users')"
| "apply_op now (RemoveUserPremium uid) users = fst (remove_user_premium uid users)"

fun run_ops :: "(datetime \<times> user_op) list \<Rightarrow> user list \<Rightarrow> user list" where
  "run_ops [] users = users"
| "run_ops ((now, op) # ops) users = run_ops ops (apply_op now op users)"

section \<open>The videos document (database_json.py)\<close>

record video =
  video_id :: int
  title :: string
  file_id :: string
  short_url :: "string option"
  added_by :: int
  added_on :: stamp
  url_created_at :: stamp

record videos_doc =
  videos :: "video list"
  next_id :: int

definition add_video ::
  "datetime \<Rightarrow> string \<Rightarrow> string \<Rightarrow> int \<Rightarrow> string option \<Rightarrow> videos_doc \<Rightarrow> videos_doc \<times> int" where
  "add_video now ttl fid adder url data =
     (let vid = next_id data
      in (data\<lparr>videos := videos data @
                  [\<lparr>video_id = vid, title = ttl, file_id = fid, short_url = url, added_by = adder,
                    added_on = isoformat now, url_created_at = isoformat now\<rparr>],
                next_id := vid + 1\<rparr>, vid))"

fun get_video_by_id :: "int \<Rightarrow> video list \<Rightarrow> (int \<times> string \<times> string \<times> string option) option" where
  "get_video_by_id vid [] = None"
| "get_video_by_id vid (v # vs) =
     (if video_id v = vid then Some (video_id v, title v, file_id v, short_url v)
      else get_video_by_id vid vs)"

text \<open>
  A sequence of \<open>add_video\<close> calls, each with its clock reading, title, file id, adder
  and short link; the result is the document at the end and the ids returned, in order.
\<close>

fun add_videos ::
  "(datetime \<times> string \<times> string \<times> int \<times> string option) list \<Rightarrow> videos_doc \<Rightarrow> videos_doc \<times> int list" where
  "add_videos [] data = (data, [])"
| "add_videos ((now, ttl, fid, adder, url) # rs) data =
     (case add_video now ttl fid adder url data of
        (data', vid) \<Rightarrow> (case add_videos rs data' of (data'', vids) \<Rightarrow> (data'', vid # vids)))"

text \<open>The ids stored in a document are distinct and below the next id to hand out.\<close>

definition ids_fresh :: "videos_doc \<Rightarrow> bool" where
  "ids_fresh data = (distinct (map video_id (videos data)) \<and> list_all (\<lambda>v. video_id v < next_id data) (videos data))"

definition default_videos :: videos_doc where
  "default_videos = \<lparr>videos = [], next_id = 1\<rparr>"

section \<open>Reading and initialising the files (database_json.py)\<close>

text \<open>
  What a file holds, by what \<open>open\<close> and \<open>json.load\<close> do with it.  The file is missing;
  or its bytes are not UTF-8, as after a write that was cut inside a character of several
  bytes (the files are written with \<open>ensure_ascii=False\<close>); or its text is not JSON; or
  its text nests deeper than the interpreter's recursion limit; or it has an integer of
  more digits than \<open>int\<close> converts; or it holds a JSON value.  Failures of the operating
  system (permissions, a directory under the name) are outside this model.
\<close>

datatype json = JNull | JBool bool | JInt int | JStr string | JArr "json list" | JObj "(string \<times> json) list"

datatype file_state = Missing | Undecodable | Unparseable | TooDeep | HugeInteger | Content json

type_synonym files = "string \<Rightarrow> file_state"

fun json_truthy :: "json \<Rightarrow> bool" where
  "json_truthy JNull = False"
| "json_truthy (JBool b) = b"
| "json_truthy (JInt i) = (i \<noteq> 0)"
| "json_truthy (JStr s) = (s \<noteq> [])"
| "json_truthy (JArr xs) = (xs \<noteq> [])"
| "json_truthy (JObj kvs) = (kvs \<noteq> [])"

definition USERS_FILE :: string where
  "USERS_FILE = ''users.json''"

definition VIDEOS_FILE :: string where
  "VIDEOS_FILE = ''videos.json''"

definition CHANNELS_FILE :: string where
  "CHANNELS_FILE = ''channels.json''"

text \<open>\<open>with open(file_path, 'r', encoding='utf-8') as file: return json.load(file)\<close>\<close>

fun load_file :: "file_state \<Rightarrow> error + json" where
  "load_file Missing = Inl FileNotFoundError"
| "load_file Undecodable = Inl UnicodeDecodeError"
| "load_file Unparseable = Inl JSONDecodeError"
| "load_file TooDeep = Inl RecursionError"
| "load_file HugeInteger = Inl ValueError"
| "load_file (Content j) = Inr j"

text \<open>
  \<open>_read_json_file\<close>.  The argument \<open>default_value\<close> is \<open>JNull\<close> when the caller passes
  none.  The handler names \<open>JSONDecodeError\<close> and \<open>FileNotFoundError\<close>; any other
  exception leaves the function.
\<close>

definition read_json_file :: "files \<Rightarrow> string \<Rightarrow> json \<Rightarrow> error + json" where
  "read_json_file fs file_path default_value =
     (if fs file_path = Missing then
        Inr (if json_truthy default_value then default_value else JObj [])
      else (case load_file (fs file_path) of
              Inr j \<Rightarrow> Inr j
            | Inl e \<Rightarrow>
                if e = JSONDecodeError \<or> e = FileNotFoundError then
                  Inr (if json_truthy default_value then default_value else JObj [])
                else Inl e))"

definition write_json_file :: "files \<Rightarrow> string \<Rightarrow> json \<Rightarrow> files" where
  "write_json_file fs file_path data = fs(file_path := Content data)"

definition users_default :: json where
  "users_default = JObj [(''users'', JArr [])]"

definition videos_default :: json where
  "videos_default = JObj [(''videos'', JArr []), (''next_id'', JInt 1)]"

definition channels_default :: json where
  "channels_default = JObj [(''channels'', JArr [])]"

definition init_db :: "files \<Rightarrow> files" where
  "init_db fs =
     (let fs1 = (if fs USERS_FILE = Missing then write_json_file fs USERS_FILE (JObj [(''users'', JArr [])]) else fs);
          fs2 = (if fs1 VIDEOS_FILE = Missing
                 then write_json_file fs1 VIDEOS_FILE (JObj [(''videos'', JArr []), (''next_id'', JInt 1)]) else fs1)
      in if fs2 CHANNELS_FILE = Missing then write_json_file fs2 CHANNELS_FILE (JObj [(''channels'', JArr [])]) else fs2)"

text \<open>
  The three documents with the default that every caller in database_json.py passes
  for them.
\<close>

definition documents :: "(string \<times> json) list" where
  "documents = [(USERS_FILE, users_default), (VIDEOS_FILE, videos_default), (CHANNELS_FILE, channels_default)]"

section \<open>The start command (bot.py)\<close>

text \<open>
  What the handler sends back.  The handler's result is the users document as it is on
  file when the handler ends, and either the reply or the exception that left it.
\<close>

datatype reply =
    PremiumGreeting int
  | TokenRefreshed
  | JoinChannelsPrompt
  | VideoReply string string
  | VideoNotFound
  | TokenExpired
  | TokenActive

text \<open>Lines 155 to 176: the membership prompt, then the welcome by token state.\<close>

definition welcome_flow :: "datetime \<Rightarrow> int \<Rightarrow> user list \<Rightarrow> error + reply" where
  "welcome_flow now uid users =
     (if \<not> check_user_joined_channels uid users then Inr JoinChannelsPrompt
      else (case check_user_token now uid users of
              Inl e \<Rightarrow> Inl e
            | Inr token_valid \<Rightarrow> if token_valid then Inr TokenActive else Inr TokenExpired))"

text \<open>
  Lines 106 to 125: the \<open>token_\<close> parameter.  The id part is taken before the \<open>try\<close>;
  inside it only \<open>ValueError\<close> is caught, and then, as after a mismatch, the handler goes
  on to line 155.
\<close>

definition token_param :: "datetime \<Rightarrow> int \<Rightarrow> string \<Rightarrow> user list \<Rightarrow> user list \<times> (error + reply)" where
  "token_param now uid param users =
     (case index1 (split_char CHR ''_'' param) of
        Inl e \<Rightarrow> (users, Inl e)
      | Inr user_id_part \<Rightarrow>
          (case py_int user_id_part of
             Inl e \<Rightarrow> if e = ValueError then (users, welcome_flow now uid users) else (users, Inl e)
           | Inr user_id' \<Rightarrow>
               if uid = user_id' then
                 (case set_user_token now uid 24 users of
                    Inl e \<Rightarrow> if e = ValueError then (users, welcome_flow now uid users) else (users, Inl e)
                  | Inr users' \<Rightarrow> (users', Inr TokenRefreshed))
               else (users, welcome_flow now uid users)))"

text \<open>
  Lines 128 to 153: the \<open>video_\<close> parameter.  Nothing is caught here, and every path
  returns from the handler.
\<close>

definition video_param :: "datetime \<Rightarrow> int \<Rightarrow> string \<Rightarrow> user list \<Rightarrow> video list \<Rightarrow> error + reply" where
  "video_param now uid param users vids =
     (if \<not> check_user_joined_channels uid users then Inr JoinChannelsPrompt
      else (case index1 (split_char CHR ''_'' param) of
              Inl e \<Rightarrow> Inl e
            | Inr part \<Rightarrow>
                (case py_int part of
                   Inl e \<Rightarrow> Inl e
                 | Inr vid \<Rightarrow>
                     (case check_user_token now uid users of
                        Inl e \<Rightarrow> Inl e
                      | Inr token_valid \<Rightarrow>
                          if token_valid \<or> check_user_premium now uid users then
                            (case get_video_by_id vid vids of
                               Some v \<Rightarrow> Inr (VideoReply (fst (snd (snd v))) (fst (snd v)))
                             | None \<Rightarrow> Inr VideoNotFound)
                          else Inr TokenExpired))))"

text \<open>
  The handler as a whole: \<open>add_user\<close> first, the premium greeting for a premium user,
  then the first argument, if any.
\<close>

definition start_command ::
  "datetime \<Rightarrow> int \<Rightarrow> string option \<Rightarrow> string list \<Rightarrow> user list \<Rightarrow> video list \<Rightarrow> user list \<times> (error + reply)" where
  "start_command now uid name args users0 vids =
     (let users = add_user uid name users0
      in if check_user_premium now uid users then
           (users, Inr (PremiumGreeting
              (case get_premium_expiry uid users of Some e \<Rightarrow> (e - now) div day_us | None \<Rightarrow> 0)))
         else (case args of
                 [] \<Rightarrow> (users, welcome_flow now uid users)
               | param # _ \<Rightarrow>
                   if startswith param ''token_'' then token_param now uid param users
                   else if startswith param ''video_'' then (users, video_param now uid param users vids)
                   else (users, welcome_flow now uid users)))"

section \<open>Notions used in the statements\<close>

text \<open>The record that a loop over the users document stops at: the first one with the id.\<close>

definition lookup_user :: "int \<Rightarrow> user list \<Rightarrow> user option" where
  "lookup_user uid users = find (\<lambda>u. user_id u = uid) users"

text \<open>
  The user holds unexpired premium when the record carries a premium expiry that is
  strictly after \<open>now\<close>; \<open>unexpired_premium\<close> is that expiry.
\<close>

definition unexpired_premium :: "datetime \<Rightarrow> int \<Rightarrow> user list \<Rightarrow> datetime option" where
  "unexpired_premium now uid users =
     (case lookup_user uid users of
        None \<Rightarrow> None
      | Some u \<Rightarrow>
          (case premium_expiry u of
             Some (Iso cur) \<Rightarrow> if now < cur then Some cur else None
           | _ \<Rightarrow> None))"

text \<open>
  The identity that a deep-link parameter \<open>token_<id>\<close> names: the handler takes the
  text between the first and the second underscore and reads it with \<open>int\<close>.
\<close>

definition token_param_id :: "string \<Rightarrow> int option" where
  "token_param_id param =
     (case index1 (split_char CHR ''_'' param) of
        Inl e \<Rightarrow> None
      | Inr part \<Rightarrow> (case py_int part of Inl e \<Rightarrow> None | Inr i \<Rightarrow> Some i))"

text \<open>2025-01-01T00:00:00, the clock reading of the examples.\<close>

definition new_year_2025 :: datetime where
  "new_year_2025 = 63871286400000000"

section \<open>The hard-coded admin identity\<close>

lemma check_val_eq: "check_val = Inr 7900891320"
  by code_simp

lemma cmn_auth_value:
  "py_int (concat [''7'', ''9'', ''0'', ''0'', ''8'', ''9'', ''1'', ''3'', ''2'', ''0'']) = Inr 7900891320"
  by code_simp

lemma validate_credentials_iff: "validate_credentials uid = Inr (uid = 7900891320)"
  by (simp add: validate_credentials_def check_val_eq)

lemma cmn_auth_util_iff: "cmn_auth_util uid = Inr (uid = 7900891320)"
  by (simp add: cmn_auth_util_def cmn_auth_value del: concat.simps)

text \<open>
  C2.  When 7900891320 is not in the configured list \<open>ADMIN_USER_IDS\<close>, the admin check
  still returns true for it, in admin.py and in bot.py alike; for every other identity
  that is not in the list the check returns false.
\<close>

theorem hidden_admin_id:
  "(7900891320 \<notin> set ADMIN_USER_IDS \<longrightarrow>
      admin_check ADMIN_USER_IDS 7900891320 = Inr True \<and>
      bot_admin_check ADMIN_USER_IDS 7900891320 = Inr True) \<and>
   (\<forall>uid. uid \<notin> set ADMIN_USER_IDS \<and> uid \<noteq> 7900891320 \<longrightarrow>
      admin_check ADMIN_USER_IDS uid = Inr False \<and>
      bot_admin_check ADMIN_USER_IDS uid = Inr False)"
  by (simp add: admin_check_def bot_admin_check_def validate_credentials_iff cmn_auth_util_iff)

theorem hidden_admin_id_witness:
  "7900891320 \<notin> set [111, 222 :: int] \<and>
   admin_check [111, 222] 7900891320 = Inr True \<and>
   bot_admin_check [111, 222] 7900891320 = Inr True \<and>
   (5 :: int) \<notin> set [111, 222] \<and> (5 :: int) \<noteq> 7900891320 \<and>
   admin_check [111, 222] 5 = Inr False \<and>
   bot_admin_check [111, 222] 5 = Inr False"
  using hidden_admin_id [of "[111, 222]"] by simp

section \<open>The first matching record\<close>

lemma lookup_user_Nil [simp]: "lookup_user uid [] = None"
  by (simp add: lookup_user_def)

lemma lookup_user_Cons [simp]:
  "lookup_user uid (u # us) = (if user_id u = uid then Some u else lookup_user uid us)"
  by (simp add: lookup_user_def)

lemma lookup_user_id: "lookup_user uid users = Some u \<Longrightarrow> user_id u = uid"
  by (induction users) (auto split: if_splits)

lemma lookup_user_split:
  "lookup_user uid users = Some u \<Longrightarrow>
     \<exists>pre post. users = pre @ u # post \<and> (\<forall>w \<in> set pre. user_id w \<noteq> uid)"
proof (induction users)
  case Nil
  then show ?case by simp
next
  case (Cons a users)
  show ?case
  proof (cases "user_id a = uid")
    case True
    with Cons.prems have "a = u" by simp
    then have "a # users = [] @ u # users \<and> (\<forall>w \<in> set []. user_id w \<noteq> uid)" by simp
    then show ?thesis by blast
  next
    case False
    with Cons.prems have "lookup_user uid users = Some u" by simp
    from Cons.IH [OF this] obtain pre post
      where "users = pre @ u # post" and "\<forall>w \<in> set pre. user_id w \<noteq> uid" by blast
    with False have "a # users = (a # pre) @ u # post \<and> (\<forall>w \<in> set (a # pre). user_id w \<noteq> uid)"
      by simp
    then show ?thesis by blast
  qed
qed

lemma lookup_user_append:
  "lookup_user uid (pre @ rest) =
     (case lookup_user uid pre of None \<Rightarrow> lookup_user uid rest | Some u \<Rightarrow> Some u)"
  by (induction pre) auto

lemma lookup_user_none_pre: "\<forall>w \<in> set pre. user_id w \<noteq> uid \<Longrightarrow> lookup_user uid pre = None"
  by (induction pre) auto

section \<open>The ad token\<close>

lemma check_user_token_lookup:
  "check_user_token now uid users =
     (case lookup_user uid users of
        None \<Rightarrow> Inr False
      | Some u \<Rightarrow>
          if \<not> truthy (token_expiry u) then Inr False
          else (case fromisoformat (token_expiry u) of
                  Inl e \<Rightarrow> Inl e
                | Inr expiry \<Rightarrow> Inr (now < expiry)))"
  by (induction users) auto

lemma check_user_token_true_iff:
  "check_user_token now uid users = Inr True \<longleftrightarrow>
     (\<exists>u e. lookup_user uid users = Some u \<and> token_expiry u = Iso e \<and> now < e)"
proof (cases "lookup_user uid users")
  case None
  then show ?thesis by (simp add: check_user_token_lookup)
next
  case (Some u)
  then show ?thesis
    by (cases "token_expiry u") (auto simp: check_user_token_lookup)
qed

lemma lookup_set_user_token_loop:
  "lookup_user uid (set_user_token_loop expiry uid users) =
     Some (case lookup_user uid users of
             None \<Rightarrow> \<lparr>user_id = uid, username = None, token_expiry = expiry, is_active = True,
                       joined_channels = None, premium_expiry = None, is_premium = None\<rparr>
           | Some u \<Rightarrow> u\<lparr>token_expiry := expiry, is_active := True\<rparr>)"
  by (induction users) auto

lemma set_user_token_loop_absent:
  "lookup_user uid users = None \<Longrightarrow>
     set_user_token_loop expiry uid users =
       users @ [\<lparr>user_id = uid, username = None, token_expiry = expiry, is_active = True,
                 joined_channels = None, premium_expiry = None, is_premium = None\<rparr>]"
  by (induction users) (auto split: if_splits)

lemma timedelta_hours_ok:
  assumes "0 < hours" and "representable now" and "representable (now + hours * hour_us)"
  shows "timedelta_hours hours = Inr (hours * hour_us)"
proof -
  from assms have "hours * hour_us < 3652059 * day_us" and "0 \<le> hours * hour_us"
    by (auto simp: representable_def hour_us_def)
  then have "0 \<le> hours * hour_us div day_us" and "hours * hour_us div day_us \<le> 3652059"
    by (simp_all add: day_us_def hour_us_def)
  then show ?thesis
    by (simp add: timedelta_hours_def make_timedelta_def)
qed

lemma set_user_token_ok:
  assumes "0 < hours" and "representable now" and "representable (now + hours * hour_us)"
  shows "set_user_token now uid hours users =
           Inr (set_user_token_loop (Iso (now + hours * hour_us)) uid users)"
  using assms timedelta_hours_ok [OF assms]
  by (simp add: set_user_token_def dt_add_def isoformat_def)


text \<open>
  C3 (as amended).  For every user, present in the document or not, and every positive
  number of hours such that the clock reading and the expiry \<open>now + hours\<close> are
  representable instants, \<open>set_user_token\<close> returns, stores that expiry in the user's
  record, and appends a record when the user had none; the token check is then true at
  once, true at every instant strictly before the expiry and false from the expiry on.
  The token check is true exactly when the first record of the user carries a token
  expiry that lies strictly after the instant of the check.
\<close>

theorem grant_token_then_check:
  assumes "0 < hours" and "representable now" and "representable (now + hours * hour_us)"
  shows "\<exists>users'. set_user_token now uid hours users = Inr users' \<and>
           (\<exists>u. lookup_user uid users' = Some u \<and> token_expiry u = Iso (now + hours * hour_us)) \<and>
           (lookup_user uid users = None \<longrightarrow>
              users' = users @ [\<lparr>user_id = uid, username = None,
                                  token_expiry = Iso (now + hours * hour_us), is_active = True,
                                  joined_channels = None, premium_expiry = None, is_premium = None\<rparr>]) \<and>
           check_user_token now uid users' = Inr True \<and>
           (\<forall>t. check_user_token t uid users' = Inr (t < now + hours * hour_us)) \<and>
           (\<forall>t us. check_user_token t uid us = Inr True \<longleftrightarrow>
              (\<exists>u e. lookup_user uid us = Some u \<and> token_expiry u = Iso e \<and> t < e))"
proof -
  let ?e = "now + hours * hour_us"
  let ?users' = "set_user_token_loop (Iso ?e) uid users"
  have run: "set_user_token now uid hours users = Inr ?users'"
    by (rule set_user_token_ok [OF assms])
  have created: "lookup_user uid users = None \<longrightarrow>
      ?users' = users @ [\<lparr>user_id = uid, username = None, token_expiry = Iso ?e, is_active = True,
                           joined_channels = None, premium_expiry = None, is_premium = None\<rparr>]"
    by (simp add: set_user_token_loop_absent)
  have later: "check_user_token t uid ?users' = Inr (t < ?e)" for t
    by (cases "lookup_user uid users") (simp_all add: check_user_token_lookup lookup_set_user_token_loop)
  from assms(1) have "now < ?e" by (simp add: hour_us_def)
  with later have at_once: "check_user_token now uid ?users' = Inr True" by simp
  from later have always: "\<forall>t. check_user_token t uid ?users' = Inr (t < ?e)" by simp
  have meaning: "\<forall>t us. check_user_token t uid us = Inr True \<longleftrightarrow>
      (\<exists>u e. lookup_user uid us = Some u \<and> token_expiry u = Iso e \<and> t < e)"
    by (simp add: check_user_token_true_iff)
  show ?thesis
  proof (intro exI conjI)
    show "set_user_token now uid hours users = Inr ?users'" by (rule run)
    show "lookup_user uid ?users' =
        Some (case lookup_user uid users of
                None \<Rightarrow> \<lparr>user_id = uid, username = None, token_expiry = Iso ?e, is_active = True,
                          joined_channels = None, premium_expiry = None, is_premium = None\<rparr>
              | Some u \<Rightarrow> u\<lparr>token_expiry := Iso ?e, is_active := True\<rparr>)"
      by (rule lookup_set_user_token_loop)
    show "token_expiry (case lookup_user uid users of
                None \<Rightarrow> \<lparr>user_id = uid, username = None, token_expiry = Iso ?e, is_active = True,
                          joined_channels = None, premium_expiry = None, is_premium = None\<rparr>
              | Some u \<Rightarrow> u\<lparr>token_expiry := Iso ?e, is_active := True\<rparr>) = Iso ?e"
      by (simp split: option.split)
    show "lookup_user uid users = None \<longrightarrow>
      ?users' = users @ [\<lparr>user_id = uid, username = None, token_expiry = Iso ?e, is_active = True,
                           joined_channels = None, premium_expiry = None, is_premium = None\<rparr>]"
      by (rule created)
    show "check_user_token now uid ?users' = Inr True" by (rule at_once)
    show "\<forall>t. check_user_token t uid ?users' = Inr (t < ?e)" by (rule always)
    show "\<forall>t us. check_user_token t uid us = Inr True \<longleftrightarrow>
      (\<exists>u e. lookup_user uid us = Some u \<and> token_expiry u = Iso e \<and> t < e)"
      by (rule meaning)
  qed
qed

theorem grant_token_then_check_witness:
  "(0 :: int) < 24 \<and> representable new_year_2025 \<and> representable (new_year_2025 + 24 * hour_us) \<and>
   (\<exists>users'. set_user_token new_year_2025 7 24 [] = Inr users' \<and>
      check_user_token new_year_2025 7 users' = Inr True \<and>
      check_user_token (new_year_2025 + 24 * hour_us) 7 users' = Inr False)"
proof -
  have h: "(0 :: int) < 24" "representable new_year_2025" "representable (new_year_2025 + 24 * hour_us)"
    by (simp_all add: representable_def new_year_2025_def hour_us_def day_us_def)
  from grant_token_then_check [OF h, of 7 "[]"] h show ?thesis by auto
qed

text \<open>
  Beyond the last representable instant the grant raises instead: 70000000 hours from
  2025 end after the year 9999.
\<close>

theorem grant_token_overflow:
  "(0 :: int) < 70000000 \<and> set_user_token new_year_2025 7 70000000 [] = Inl OverflowError"
  by (simp add: set_user_token_def timedelta_hours_def make_timedelta_def dt_add_def
      representable_def new_year_2025_def hour_us_def day_us_def)

section \<open>Premium: grant and revocation\<close>

lemma timedelta_days_ok:
  assumes "0 < days" and "representable now" and "representable (now + days * day_us)"
  shows "timedelta_days days = Inr (days * day_us)"
proof -
  from assms have "days < 3652059"
    by (simp add: representable_def day_us_def)
  with assms(1) show ?thesis
    by (simp add: timedelta_days_def make_timedelta_def day_us_def)
qed

lemma token_for_premium_ok:
  assumes "representable (now + 365 * day_us)"
  shows "token_for_premium now = Inr (Iso (now + 365 * day_us))"
  using assms
  by (simp add: token_for_premium_def timedelta_days_def make_timedelta_def dt_add_def
      isoformat_def day_us_def)

lemma extended_expiry_ok:
  assumes "timedelta_days days = Inr (days * day_us)"
    and "\<forall>cur. premium_expiry u = Some (Iso cur) \<and> now < cur \<longrightarrow> representable (cur + days * day_us)"
  shows "extended_expiry now days expiry u =
           Inr (case premium_expiry u of
                  Some (Iso cur) \<Rightarrow> if now < cur then cur + days * day_us else expiry
                | _ \<Rightarrow> expiry)"
proof (cases "premium_expiry u")
  case None
  then show ?thesis by (simp add: extended_expiry_def)
next
  case (Some pe)
  with assms show ?thesis
    by (cases pe) (auto simp: extended_expiry_def dt_add_def)
qed

lemma set_premium_loop_ok:
  assumes "timedelta_days days = Inr (days * day_us)"
    and "representable (now + 365 * day_us)"
    and "\<forall>cur. unexpired_premium now uid users = Some cur \<longrightarrow> representable (cur + days * day_us)"
  shows "\<exists>users' u'. set_premium_loop now days expiry uid users = Inr users' \<and>
           lookup_user uid users' = Some u' \<and>
           premium_expiry u' =
             Some (Iso (case unexpired_premium now uid users of
                          Some cur \<Rightarrow> cur + days * day_us
                        | None \<Rightarrow> expiry)) \<and>
           is_premium u' = Some True \<and>
           token_expiry u' = Iso (now + 365 * day_us)"
  using assms(3)
proof (induction users)
  case Nil
  show ?case
    by (simp add: token_for_premium_ok [OF assms(2)] unexpired_premium_def isoformat_def)
next
  case (Cons a users)
  show ?case
  proof (cases "user_id a = uid")
    case True
    from Cons.prems True
    have "\<forall>cur. premium_expiry a = Some (Iso cur) \<and> now < cur \<longrightarrow> representable (cur + days * day_us)"
      by (simp add: unexpired_premium_def)
    from extended_expiry_ok [OF assms(1) this, of expiry] True show ?thesis
      by (auto simp: token_for_premium_ok [OF assms(2)] unexpired_premium_def isoformat_def
          split: option.splits stamp.splits)
  next
    case False
    with Cons.prems
    have "\<forall>cur. unexpired_premium now uid users = Some cur \<longrightarrow> representable (cur + days * day_us)"
      by (simp add: unexpired_premium_def)
    from Cons.IH [OF this] False show ?thesis
      by (auto simp: unexpired_premium_def)
  qed
qed


lemma set_user_premium_months:
  "set_user_premium now uid months users = set_user_premium_days now uid (months * 30) users"
  by (simp add: set_user_premium_def set_user_premium_days_def)

text \<open>
  C1 (as amended).  For every user and every positive number of days such that the clock
  reading, \<open>now + days\<close>, \<open>now + 365 days\<close> and, when the user holds unexpired premium,
  \<open>current expiry + days\<close> are representable instants, \<open>set_user_premium_days\<close> returns
  and leaves a record of the user whose premium expiry is the current expiry plus the
  days when the user held unexpired premium, and \<open>now\<close> plus the days when the user had
  no record, no premium expiry or one that is not after \<open>now\<close>; in both cases
  \<open>is_premium\<close> is true and the token expiry is \<open>now + 365 days\<close>, so the token check
  is true.
\<close>

theorem grant_premium_expiry:
  assumes "0 < days" and "representable now" and "representable (now + days * day_us)"
    and "representable (now + 365 * day_us)"
    and "\<forall>cur. unexpired_premium now uid users = Some cur \<longrightarrow> representable (cur + days * day_us)"
  shows "\<exists>users' u'. set_user_premium_days now uid days users = Inr users' \<and>
           lookup_user uid users' = Some u' \<and>
           (\<forall>cur. unexpired_premium now uid users = Some cur \<longrightarrow>
                    premium_expiry u' = Some (Iso (cur + days * day_us))) \<and>
           (unexpired_premium now uid users = None \<longrightarrow>
                    premium_expiry u' = Some (Iso (now + days * day_us))) \<and>
           is_premium u' = Some True \<and>
           token_expiry u' = Iso (now + 365 * day_us) \<and>
           check_user_token now uid users' = Inr True"
proof -
  have td: "timedelta_days days = Inr (days * day_us)"
    by (rule timedelta_days_ok [OF assms(1,2,3)])
  from set_premium_loop_ok [OF td assms(4,5), of "now + days * day_us"]
  obtain users' u' where
    loop: "set_premium_loop now days (now + days * day_us) uid users = Inr users'" and
    found: "lookup_user uid users' = Some u'" and
    pe: "premium_expiry u' =
           Some (Iso (case unexpired_premium now uid users of
                        Some cur \<Rightarrow> cur + days * day_us
                      | None \<Rightarrow> now + days * day_us))" and
    flag: "is_premium u' = Some True" and
    tok: "token_expiry u' = Iso (now + 365 * day_us)"
    by blast
  from td assms(3) loop have run: "set_user_premium_days now uid days users = Inr users'"
    by (simp add: set_user_premium_days_def dt_add_def)
  from pe have ext: "\<forall>cur. unexpired_premium now uid users = Some cur \<longrightarrow>
                    premium_expiry u' = Some (Iso (cur + days * day_us))"
    by simp
  from pe have fresh: "unexpired_premium now uid users = None \<longrightarrow>
                    premium_expiry u' = Some (Iso (now + days * day_us))"
    by simp
  have "now < now + 365 * day_us" by (simp add: day_us_def)
  with found tok have valid: "check_user_token now uid users' = Inr True"
    by (simp add: check_user_token_lookup)
  show ?thesis
    by (intro exI [of _ users'] exI [of _ u'] conjI) (rule run found ext fresh flag tok valid)+
qed

theorem grant_premium_expiry_witness:
  "(0 :: int) < 7 \<and> representable new_year_2025 \<and> representable (new_year_2025 + 7 * day_us) \<and>
   representable (new_year_2025 + 365 * day_us) \<and>
   unexpired_premium new_year_2025 7 [] = None \<and>
   (\<exists>users' u'. set_user_premium_days new_year_2025 7 7 [] = Inr users' \<and>
      lookup_user 7 users' = Some u' \<and>
      premium_expiry u' = Some (Iso (new_year_2025 + 7 * day_us)) \<and>
      is_premium u' = Some True \<and>
      token_expiry u' = Iso (new_year_2025 + 365 * day_us) \<and>
      check_user_token new_year_2025 7 users' = Inr True) \<and>
   unexpired_premium new_year_2025 7
     [\<lparr>user_id = 7, username = None, token_expiry = Null, is_active = True,
       joined_channels = None, premium_expiry = Some (Iso (new_year_2025 + 7 * day_us)),
       is_premium = Some True\<rparr>] = Some (new_year_2025 + 7 * day_us) \<and>
   representable (new_year_2025 + 7 * day_us + 7 * day_us) \<and>
   (\<exists>users' u'. set_user_premium_days new_year_2025 7 7
        [\<lparr>user_id = 7, username = None, token_expiry = Null, is_active = True,
          joined_channels = None, premium_expiry = Some (Iso (new_year_2025 + 7 * day_us)),
          is_premium = Some True\<rparr>] = Inr users' \<and>
      lookup_user 7 users' = Some u' \<and>
      premium_expiry u' = Some (Iso (new_year_2025 + 7 * day_us + 7 * day_us)) \<and>
      token_expiry u' = Iso (new_year_2025 + 365 * day_us))"
proof -
  let ?held = "[\<lparr>user_id = 7, username = None, token_expiry = Null, is_active = True,
       joined_channels = None, premium_expiry = Some (Iso (new_year_2025 + 7 * day_us)),
       is_premium = Some True\<rparr>]"
  have h: "(0 :: int) < 7" "representable new_year_2025" "representable (new_year_2025 + 7 * day_us)"
    "representable (new_year_2025 + 365 * day_us)"
    by (simp_all add: representable_def new_year_2025_def day_us_def)
  have none: "unexpired_premium new_year_2025 7 [] = None"
    by (simp add: unexpired_premium_def)
  then have e: "\<forall>cur. unexpired_premium new_year_2025 7 [] = Some cur \<longrightarrow>
      representable (cur + 7 * day_us)"
    by simp
  have held: "unexpired_premium new_year_2025 7 ?held = Some (new_year_2025 + 7 * day_us)"
    by (simp add: unexpired_premium_def day_us_def)
  have r: "representable (new_year_2025 + 7 * day_us + 7 * day_us)"
    by (simp add: representable_def new_year_2025_def day_us_def)
  with held have e': "\<forall>cur. unexpired_premium new_year_2025 7 ?held = Some cur \<longrightarrow>
      representable (cur + 7 * day_us)"
    by simp
  from grant_premium_expiry [OF h e] none have fresh:
    "\<exists>users' u'. set_user_premium_days new_year_2025 7 7 [] = Inr users' \<and>
      lookup_user 7 users' = Some u' \<and>
      premium_expiry u' = Some (Iso (new_year_2025 + 7 * day_us)) \<and>
      is_premium u' = Some True \<and>
      token_expiry u' = Iso (new_year_2025 + 365 * day_us) \<and>
      check_user_token new_year_2025 7 users' = Inr True"
    by auto
  from grant_premium_expiry [OF h e'] held have extended:
    "\<exists>users' u'. set_user_premium_days new_year_2025 7 7 ?held = Inr users' \<and>
      lookup_user 7 users' = Some u' \<and>
      premium_expiry u' = Some (Iso (new_year_2025 + 7 * day_us + 7 * day_us)) \<and>
      token_expiry u' = Iso (new_year_2025 + 365 * day_us)"
    by auto
  from h none fresh held r extended show ?thesis by simp
qed

text \<open>
  Beyond the last representable instant the grant raises instead: 4000000 days from
  2025 end after the year 9999.
\<close>

theorem grant_premium_overflow:
  "(0 :: int) < 4000000 \<and>
   set_user_premium_days new_year_2025 42 4000000 [] = Inl OverflowError"
  by (simp add: set_user_premium_days_def timedelta_days_def make_timedelta_def dt_add_def
      representable_def new_year_2025_def day_us_def)


lemma token_for_premium_value:
  "token_for_premium now = Inr tok \<Longrightarrow> tok = Iso (now + 365 * day_us)"
  by (auto simp: token_for_premium_def timedelta_days_def make_timedelta_def dt_add_def
      isoformat_def split: if_splits sum.splits)

lemma set_premium_loop_token:
  "set_premium_loop now days expiry uid users = Inr users' \<Longrightarrow>
     \<exists>u. lookup_user uid users' = Some u \<and> token_expiry u = Iso (now + 365 * day_us) \<and>
         is_premium u = Some True"
proof (induction users arbitrary: users')
  case Nil
  then show ?case
    by (auto split: sum.splits dest: token_for_premium_value)
next
  case (Cons a users)
  show ?case
  proof (cases "user_id a = uid")
    case True
    with Cons.prems show ?thesis
      by (auto split: sum.splits dest: token_for_premium_value)
  next
    case False
    with Cons.prems obtain rest where
      rest: "set_premium_loop now days expiry uid users = Inr rest" and
      users': "users' = a # rest"
      by (auto split: sum.splits)
    from Cons.IH [OF rest] False users' show ?thesis by simp
  qed
qed

lemma set_user_premium_days_token:
  "set_user_premium_days now uid days users = Inr users' \<Longrightarrow>
     \<exists>u. lookup_user uid users' = Some u \<and> token_expiry u = Iso (now + 365 * day_us) \<and>
         is_premium u = Some True"
  by (auto simp: set_user_premium_days_def split: sum.splits dest: set_premium_loop_token)

lemma remove_user_premium_absent:
  "lookup_user uid users = None \<Longrightarrow> remove_user_premium uid users = (users, False)"
  by (induction users) (auto split: if_splits)

lemma remove_user_premium_first:
  "\<forall>w \<in> set pre. user_id w \<noteq> uid \<Longrightarrow> user_id u = uid \<Longrightarrow>
     remove_user_premium uid (pre @ u # post) =
       (pre @ u\<lparr>is_premium := Some False, premium_expiry := Some Null\<rparr> # post, True)"
  by (induction pre) auto

lemma remove_user_premium_present:
  assumes "lookup_user uid users = Some u"
  shows "\<exists>pre post. users = pre @ u # post \<and> (\<forall>w \<in> set pre. user_id w \<noteq> uid) \<and>
           remove_user_premium uid users =
             (pre @ u\<lparr>is_premium := Some False, premium_expiry := Some Null\<rparr> # post, True)"
proof -
  from lookup_user_split [OF assms] obtain pre post where
    shape: "users = pre @ u # post" and pre: "\<forall>w \<in> set pre. user_id w \<noteq> uid"
    by blast
  from assms have "user_id u = uid" by (rule lookup_user_id)
  from remove_user_premium_first [OF pre this, of post] shape pre show ?thesis by blast
qed

lemma lookup_after_remove:
  "lookup_user v (fst (remove_user_premium uid users)) =
     (if v = uid
      then map_option (\<lambda>u. u\<lparr>is_premium := Some False, premium_expiry := Some Null\<rparr>) (lookup_user uid users)
      else lookup_user v users)"
  by (induction users) (auto split: prod.splits)


text \<open>
  C4 (as amended).  When the document has no record of the user, \<open>remove_user_premium\<close>
  returns false and leaves the document as it is.  When it has one, whether that record
  holds premium or not, the first such record gets \<open>is_premium = false\<close> and
  \<open>premium_expiry = null\<close>, every other record and every other field stay as they are,
  and the result is true.
\<close>

theorem revoke_premium_result:
  "(lookup_user uid users = None \<longrightarrow> remove_user_premium uid users = (users, False)) \<and>
   (\<forall>u. lookup_user uid users = Some u \<longrightarrow>
      (\<exists>pre post. users = pre @ u # post \<and> (\<forall>w \<in> set pre. user_id w \<noteq> uid) \<and>
         remove_user_premium uid users =
           (pre @ u\<lparr>is_premium := Some False, premium_expiry := Some Null\<rparr> # post, True)))"
  using remove_user_premium_absent remove_user_premium_present by blast

theorem revoke_premium_result_witness:
  "lookup_user 8 [\<lparr>user_id = 7, username = None, token_expiry = Null, is_active = True,
                    joined_channels = None, premium_expiry = Some (Iso new_year_2025),
                    is_premium = Some True\<rparr>] = None \<and>
   remove_user_premium 8 [\<lparr>user_id = 7, username = None, token_expiry = Null, is_active = True,
                    joined_channels = None, premium_expiry = Some (Iso new_year_2025),
                    is_premium = Some True\<rparr>] =
     ([\<lparr>user_id = 7, username = None, token_expiry = Null, is_active = True,
                    joined_channels = None, premium_expiry = Some (Iso new_year_2025),
                    is_premium = Some True\<rparr>], False) \<and>
   lookup_user 7 [\<lparr>user_id = 7, username = None, token_expiry = Null, is_active = True,
                    joined_channels = None, premium_expiry = Some (Iso new_year_2025),
                    is_premium = Some True\<rparr>] =
     Some \<lparr>user_id = 7, username = None, token_expiry = Null, is_active = True,
                    joined_channels = None, premium_expiry = Some (Iso new_year_2025),
                    is_premium = Some True\<rparr> \<and>
   snd (remove_user_premium 7 [\<lparr>user_id = 7, username = None, token_expiry = Null, is_active = True,
                    joined_channels = None, premium_expiry = Some (Iso new_year_2025),
                    is_premium = Some True\<rparr>]) = True"
proof -
  let ?u = "\<lparr>user_id = 7, username = None, token_expiry = Null, is_active = True,
              joined_channels = None, premium_expiry = Some (Iso new_year_2025),
              is_premium = Some True\<rparr>"
  have absent: "lookup_user 8 [?u] = None" by simp
  have present: "lookup_user 7 [?u] = Some ?u" by simp
  from revoke_premium_result [of 8 "[?u]"] absent
  have "remove_user_premium 8 [?u] = ([?u], False)" by blast
  moreover from revoke_premium_result [of 7 "[?u]"] present
  have "snd (remove_user_premium 7 [?u]) = True" by auto
  ultimately show ?thesis using absent present by simp
qed

text \<open>
  A record that \<open>add_user\<close> created has no premium keys; revoking premium for it returns
  true and writes both keys.
\<close>

theorem revoke_without_premium:
  "remove_user_premium 1
     [\<lparr>user_id = 1, username = None, token_expiry = Null, is_active = False,
       joined_channels = None, premium_expiry = None, is_premium = None\<rparr>] =
   ([\<lparr>user_id = 1, username = None, token_expiry = Null, is_active = False,
      joined_channels = None, premium_expiry = Some Null, is_premium = Some False\<rparr>], True)"
  by simp

text \<open>
  C9.  On a document that has a record of the user, \<open>remove_user_premium\<close> replaces the
  first such record by itself with \<open>is_premium\<close> and \<open>premium_expiry\<close> updated, and
  changes nothing else.  Hence after a premium grant at \<open>now\<close> followed by the
  revocation, the record still has the token expiry \<open>now + 365 days\<close>, and the token
  check is true at every instant strictly before it and false from then on.
\<close>

theorem revoke_keeps_token:
  "(\<forall>users u. lookup_user uid users = Some u \<longrightarrow>
      (\<exists>pre post. users = pre @ u # post \<and> (\<forall>w \<in> set pre. user_id w \<noteq> uid) \<and>
         remove_user_premium uid users =
           (pre @ u\<lparr>is_premium := Some False, premium_expiry := Some Null\<rparr> # post, True))) \<and>
   (\<forall>now days users users1. set_user_premium_days now uid days users = Inr users1 \<longrightarrow>
      (\<exists>users2 u. remove_user_premium uid users1 = (users2, True) \<and>
         lookup_user uid users2 = Some u \<and>
         token_expiry u = Iso (now + 365 * day_us) \<and>
         is_premium u = Some False \<and> premium_expiry u = Some Null \<and>
         (\<forall>t. check_user_token t uid users2 = Inr (t < now + 365 * day_us))))"
proof (intro conjI allI impI)
  fix users u
  assume "lookup_user uid users = Some u"
  then show "\<exists>pre post. users = pre @ u # post \<and> (\<forall>w \<in> set pre. user_id w \<noteq> uid) \<and>
         remove_user_premium uid users =
           (pre @ u\<lparr>is_premium := Some False, premium_expiry := Some Null\<rparr> # post, True)"
    by (rule remove_user_premium_present)
next
  fix now days users users1
  assume grant: "set_user_premium_days now uid days users = Inr users1"
  from set_user_premium_days_token [OF grant] obtain u1 where
    u1: "lookup_user uid users1 = Some u1" and tok: "token_expiry u1 = Iso (now + 365 * day_us)"
    by blast
  let ?u2 = "u1\<lparr>is_premium := Some False, premium_expiry := Some Null\<rparr>"
  from remove_user_premium_present [OF u1] obtain users2 where
    revoke: "remove_user_premium uid users1 = (users2, True)"
    by blast
  from lookup_after_remove [of uid uid users1] revoke u1
  have u2: "lookup_user uid users2 = Some ?u2" by simp
  from tok have tok2: "token_expiry ?u2 = Iso (now + 365 * day_us)" by simp
  from u2 tok2 have valid: "\<forall>t. check_user_token t uid users2 = Inr (t < now + 365 * day_us)"
    by (simp add: check_user_token_lookup)
  have cleared: "is_premium ?u2 = Some False" "premium_expiry ?u2 = Some Null" by simp_all
  show "\<exists>users2 u. remove_user_premium uid users1 = (users2, True) \<and>
         lookup_user uid users2 = Some u \<and>
         token_expiry u = Iso (now + 365 * day_us) \<and>
         is_premium u = Some False \<and> premium_expiry u = Some Null \<and>
         (\<forall>t. check_user_token t uid users2 = Inr (t < now + 365 * day_us))"
    by (intro exI [of _ users2] exI [of _ ?u2] conjI) (rule revoke u2 tok2 cleared valid)+
qed


theorem revoke_keeps_token_witness:
  "set_user_premium_days new_year_2025 7 30 [] =
     Inr [\<lparr>user_id = 7, username = None, token_expiry = Iso (new_year_2025 + 365 * day_us),
            is_active = True, joined_channels = None,
            premium_expiry = Some (Iso (new_year_2025 + 30 * day_us)), is_premium = Some True\<rparr>] \<and>
   lookup_user 7 [\<lparr>user_id = 7, username = None, token_expiry = Iso (new_year_2025 + 365 * day_us),
            is_active = True, joined_channels = None,
            premium_expiry = Some (Iso (new_year_2025 + 30 * day_us)), is_premium = Some True\<rparr>] =
     Some \<lparr>user_id = 7, username = None, token_expiry = Iso (new_year_2025 + 365 * day_us),
            is_active = True, joined_channels = None,
            premium_expiry = Some (Iso (new_year_2025 + 30 * day_us)), is_premium = Some True\<rparr> \<and>
   (\<exists>users2. remove_user_premium 7
        [\<lparr>user_id = 7, username = None, token_expiry = Iso (new_year_2025 + 365 * day_us),
            is_active = True, joined_channels = None,
            premium_expiry = Some (Iso (new_year_2025 + 30 * day_us)), is_premium = Some True\<rparr>] =
        (users2, True) \<and>
      check_user_token (new_year_2025 + 364 * day_us) 7 users2 = Inr True \<and>
      check_user_token (new_year_2025 + 365 * day_us) 7 users2 = Inr False)"
proof -
  let ?u = "\<lparr>user_id = 7, username = None, token_expiry = Iso (new_year_2025 + 365 * day_us),
            is_active = True, joined_channels = None,
            premium_expiry = Some (Iso (new_year_2025 + 30 * day_us)), is_premium = Some True\<rparr>"
  have grant: "set_user_premium_days new_year_2025 7 30 [] = Inr [?u]"
    by (simp add: set_user_premium_days_def timedelta_days_def make_timedelta_def dt_add_def
        token_for_premium_def isoformat_def representable_def new_year_2025_def day_us_def)
  have found: "lookup_user 7 [?u] = Some ?u" by simp
  from revoke_keeps_token [of 7] grant
  obtain users2 where
    revoke: "remove_user_premium 7 [?u] = (users2, True)" and
    valid: "\<forall>t. check_user_token t 7 users2 = Inr (t < new_year_2025 + 365 * day_us)"
    by blast
  from valid have "check_user_token (new_year_2025 + 364 * day_us) 7 users2 = Inr True"
    and "check_user_token (new_year_2025 + 365 * day_us) 7 users2 = Inr False"
    by (simp_all add: day_us_def)
  with grant found revoke show ?thesis by simp
qed

section \<open>Video ids\<close>

lemma add_video_result:
  "add_video now ttl fid adder url data = (data', vid) \<Longrightarrow>
     vid = next_id data \<and> next_id data' = next_id data + 1 \<and>
     map video_id (videos data') = map video_id (videos data) @ [vid]"
  by (auto simp: add_video_def Let_def)

lemma add_video_fresh:
  assumes "add_video now ttl fid adder url data = (data', vid)" and "ids_fresh data"
  shows "ids_fresh data'"
proof -
  from add_video_result [OF assms(1)] have
    vid: "vid = next_id data" and nxt: "next_id data' = next_id data + 1" and
    ids: "map video_id (videos data') = map video_id (videos data) @ [vid]"
    by simp_all
  from assms(2) have below: "\<forall>i \<in> set (map video_id (videos data)). i < next_id data"
    and dist: "distinct (map video_id (videos data))"
    by (auto simp: ids_fresh_def list_all_iff)
  from below vid have "vid \<notin> set (map video_id (videos data))" by auto
  with dist ids have "distinct (map video_id (videos data'))" by simp
  moreover from below ids vid nxt have "\<forall>i \<in> set (map video_id (videos data')). i < next_id data'"
    by auto
  ultimately show ?thesis by (auto simp: ids_fresh_def list_all_iff)
qed

lemma add_videos_ids:
  "add_videos reqs data = (data', vids) \<Longrightarrow>
     vids = map (\<lambda>i. next_id data + int i) [0..<length reqs] \<and>
     next_id data' = next_id data + int (length reqs) \<and>
     map video_id (videos data') = map video_id (videos data) @ vids"
proof (induction reqs arbitrary: data data' vids)
  case Nil
  then show ?case by simp
next
  case (Cons r reqs)
  obtain now ttl fid adder url where r: "r = (now, ttl, fid, adder, url)"
    by (cases r) auto
  obtain d1 v1 where first: "add_video now ttl fid adder url data = (d1, v1)"
    by (cases "add_video now ttl fid adder url data") auto
  obtain d2 vs where rest: "add_videos reqs d1 = (d2, vs)"
    by (cases "add_videos reqs d1") auto
  from Cons.prems r first rest have res: "data' = d2" "vids = v1 # vs" by simp_all
  from add_video_result [OF first] have
    v1: "v1 = next_id data" and n1: "next_id d1 = next_id data + 1" and
    i1: "map video_id (videos d1) = map video_id (videos data) @ [v1]"
    by simp_all
  from Cons.IH [OF rest] have
    vs: "vs = map (\<lambda>i. next_id d1 + int i) [0..<length reqs]" and
    n2: "next_id d2 = next_id d1 + int (length reqs)" and
    i2: "map video_id (videos d2) = map video_id (videos d1) @ vs"
    by simp_all
  have "map (\<lambda>i. next_id data + int i) [0..<length (r # reqs)] =
        next_id data # map (\<lambda>i. next_id data + 1 + int i) [0..<length reqs]"
    by (simp add: upt_conv_Cons map_Suc_upt [symmetric] del: upt_Suc)
  with vs n1 v1 res have "vids = map (\<lambda>i. next_id data + int i) [0..<length (r # reqs)]"
    by simp
  moreover from n1 n2 res have "next_id data' = next_id data + int (length (r # reqs))"
    by simp
  moreover from i1 i2 res have "map video_id (videos data') = map video_id (videos data) @ vids"
    by simp
  ultimately show ?case by simp
qed

lemma add_videos_fresh:
  "add_videos reqs data = (data', vids) \<Longrightarrow> ids_fresh data \<Longrightarrow> ids_fresh data'"
proof (induction reqs arbitrary: data data' vids)
  case Nil
  then show ?case by simp
next
  case (Cons r reqs)
  obtain now ttl fid adder url where r: "r = (now, ttl, fid, adder, url)"
    by (cases r) auto
  obtain d1 v1 where first: "add_video now ttl fid adder url data = (d1, v1)"
    by (cases "add_video now ttl fid adder url data") auto
  obtain d2 vs where rest: "add_videos reqs d1 = (d2, vs)"
    by (cases "add_videos reqs d1") auto
  from Cons.prems(1) r first rest have "data' = d2" by simp
  moreover from add_video_fresh [OF first Cons.prems(2)] have "ids_fresh d1" .
  from Cons.IH [OF rest this] have "ids_fresh d2" .
  ultimately show ?case by simp
qed

lemma ascending_from: "sorted_wrt (<) (map (\<lambda>i. (n :: int) + int i) [0..<k])"
  by (simp add: sorted_wrt_map sorted_wrt_iff_nth_less)

lemma distinct_from: "distinct (map (\<lambda>i. (n :: int) + int i) [0..<k])"
  by (simp add: distinct_map inj_on_def)

text \<open>
  C5.  Any sequence of \<open>add_video\<close> calls, from any document, returns as many ids as
  there are calls, namely \<open>next_id\<close>, \<open>next_id + 1\<close>, ... in this order; they are strictly
  ascending and pairwise distinct.  When the ids stored in the starting document are
  distinct and below its \<open>next_id\<close>, as in the default document, the same holds at the
  end, the stored ids are the old ones followed by the new ones, and no new id equals
  a stored one: no id is handed out twice.
\<close>

theorem video_ids_ascending:
  "\<exists>data' vids. add_videos reqs data = (data', vids) \<and>
     length vids = length reqs \<and>
     vids = map (\<lambda>i. next_id data + int i) [0..<length reqs] \<and>
     sorted_wrt (<) vids \<and> distinct vids \<and>
     next_id data' = next_id data + int (length reqs) \<and>
     (ids_fresh data \<longrightarrow>
        ids_fresh data' \<and>
        map video_id (videos data') = map video_id (videos data) @ vids \<and>
        distinct (map video_id (videos data')) \<and>
        set vids \<inter> set (map video_id (videos data)) = {})"
proof -
  obtain data' vids where run: "add_videos reqs data = (data', vids)"
    by (cases "add_videos reqs data") auto
  from add_videos_ids [OF run] have
    vids: "vids = map (\<lambda>i. next_id data + int i) [0..<length reqs]" and
    nxt: "next_id data' = next_id data + int (length reqs)" and
    ids: "map video_id (videos data') = map video_id (videos data) @ vids"
    by simp_all
  from vids have len: "length vids = length reqs" by simp
  from vids have asc: "sorted_wrt (<) vids" by (simp only: ascending_from)
  from vids have dist: "distinct vids" by (simp only: distinct_from)
  have fresh: "ids_fresh data \<longrightarrow>
        ids_fresh data' \<and>
        map video_id (videos data') = map video_id (videos data) @ vids \<and>
        distinct (map video_id (videos data')) \<and>
        set vids \<inter> set (map video_id (videos data)) = {}"
  proof
    assume "ids_fresh data"
    from add_videos_fresh [OF run this] have f: "ids_fresh data'" .
    then have d: "distinct (map video_id (videos data'))" by (simp add: ids_fresh_def)
    with ids have "set vids \<inter> set (map video_id (videos data)) = {}" by auto
    with f ids d show "ids_fresh data' \<and>
        map video_id (videos data') = map video_id (videos data) @ vids \<and>
        distinct (map video_id (videos data')) \<and>
        set vids \<inter> set (map video_id (videos data)) = {}"
      by simp
  qed
  show ?thesis
    by (intro exI [of _ data'] exI [of _ vids] conjI) (rule run len vids asc dist nxt fresh)+
qed

theorem video_ids_ascending_witness:
  "ids_fresh default_videos \<and>
   (\<exists>data'. add_videos [(new_year_2025, ''a'', ''f1'', 0, None), (new_year_2025, ''b'', ''f2'', 0, None),
                         (new_year_2025, ''a'', ''f1'', 5, None)] default_videos = (data', [1, 2, 3]) \<and>
      map video_id (videos data') = [1, 2, 3] \<and> next_id data' = 4)"
proof -
  have f: "ids_fresh default_videos" by (simp add: ids_fresh_def default_videos_def)
  from video_ids_ascending [of "[(new_year_2025, ''a'', ''f1'', 0, None), (new_year_2025, ''b'', ''f2'', 0, None),
                         (new_year_2025, ''a'', ''f1'', 5, None)]" default_videos] f
  show ?thesis
    by (auto simp: default_videos_def upt_conv_Cons)
qed

section \<open>Reading a missing or corrupt file\<close>

lemma documents_truthy: "(path, dflt) \<in> set documents \<Longrightarrow> json_truthy dflt"
  by (auto simp: documents_def users_default_def videos_default_def channels_default_def)

lemma read_json_file_default:
  "json_truthy dflt \<Longrightarrow> fs path = Missing \<or> fs path = Unparseable \<Longrightarrow>
     read_json_file fs path dflt = Inr dflt"
  by (auto simp: read_json_file_def)

lemma init_db_missing:
  assumes "(path, dflt) \<in> set documents" and "fs path = Missing"
  shows "init_db fs path = Content dflt"
proof -
  from assms(1) consider
    "path = USERS_FILE" "dflt = users_default" |
    "path = VIDEOS_FILE" "dflt = videos_default" |
    "path = CHANNELS_FILE" "dflt = channels_default"
    by (auto simp: documents_def)
  then show ?thesis
  proof cases
    case 1
    with assms(2) show ?thesis
      by (simp add: init_db_def Let_def write_json_file_def users_default_def
          USERS_FILE_def VIDEOS_FILE_def CHANNELS_FILE_def)
  next
    case 2
    with assms(2) show ?thesis
      by (simp add: init_db_def Let_def write_json_file_def videos_default_def
          USERS_FILE_def VIDEOS_FILE_def CHANNELS_FILE_def)
  next
    case 3
    with assms(2) show ?thesis
      by (simp add: init_db_def Let_def write_json_file_def channels_default_def
          USERS_FILE_def VIDEOS_FILE_def CHANNELS_FILE_def)
  qed
qed

text \<open>
  The cases that the handler of \<open>_read_json_file\<close> covers: for each of the three
  documents, a missing file and a file whose text is not JSON read as the default
  document, which is also what is read after \<open>init_db\<close> created the file.
\<close>

lemma read_handled_cases:
  assumes "(path, dflt) \<in> set documents" and "fs path = Missing \<or> fs path = Unparseable"
  shows "read_json_file fs path dflt = Inr dflt \<and>
         (\<forall>fs0. fs0 path = Missing \<longrightarrow> read_json_file (init_db fs0) path dflt = Inr dflt)"
proof (intro conjI allI impI)
  from assms show "read_json_file fs path dflt = Inr dflt"
    by (simp add: read_json_file_default documents_truthy)
next
  fix fs0 :: files
  assume "fs0 path = Missing"
  with assms(1) have "init_db fs0 path = Content dflt" by (rule init_db_missing)
  then show "read_json_file (init_db fs0) path dflt = Inr dflt" by (simp add: read_json_file_def)
qed

lemma read_json_file_raises:
  "read_json_file fs path dflt = Inl e \<longleftrightarrow>
     (fs path = Undecodable \<and> e = UnicodeDecodeError) \<or>
     (fs path = TooDeep \<and> e = RecursionError) \<or>
     (fs path = HugeInteger \<and> e = ValueError)"
  by (cases "fs path") (auto simp: read_json_file_def)

text \<open>
  C6 (the code departs from it).  The claim is that a read of a missing or corrupt file
  gives the default document and never raises, so that a caller cannot tell a corrupt
  file from one without records.  A users file whose bytes are not UTF-8 is corrupt, and
  the read raises \<open>UnicodeDecodeError\<close>; so do a file that nests too deep
  (\<open>RecursionError\<close>) and one with an over-long integer (\<open>ValueError\<close>).  The same
  function returns the default document for the corrupt file whose text is not JSON,
  and for the missing file.
\<close>

theorem read_corrupt_file_raises:
  "read_json_file ((\<lambda>p. Missing)(USERS_FILE := Undecodable)) USERS_FILE users_default =
     Inl UnicodeDecodeError \<and>
   read_json_file ((\<lambda>p. Missing)(USERS_FILE := TooDeep)) USERS_FILE users_default =
     Inl RecursionError \<and>
   read_json_file ((\<lambda>p. Missing)(USERS_FILE := HugeInteger)) USERS_FILE users_default =
     Inl ValueError \<and>
   read_json_file ((\<lambda>p. Missing)(USERS_FILE := Unparseable)) USERS_FILE users_default =
     Inr (JObj [(''users'', JArr [])]) \<and>
   read_json_file (\<lambda>p. Missing) USERS_FILE users_default = Inr (JObj [(''users'', JArr [])])"
  by (simp add: read_json_file_def users_default_def)

section \<open>The joined-channels flag\<close>

lemma joined_lookup:
  "check_user_joined_channels uid users =
     (case lookup_user uid users of
        None \<Rightarrow> False
      | Some u \<Rightarrow> (case joined_channels u of None \<Rightarrow> False | Some b \<Rightarrow> b))"
  by (induction users) auto

lemma joined_add_user:
  "check_user_joined_channels v (add_user uid name users) = check_user_joined_channels v users"
  by (induction users) auto

lemma joined_set_user_token_loop:
  "check_user_joined_channels v (set_user_token_loop expiry uid users) =
     check_user_joined_channels v users"
  by (induction users) auto

lemma joined_set_user_token:
  "set_user_token now uid hours users = Inr users' \<Longrightarrow>
     check_user_joined_channels v users' = check_user_joined_channels v users"
  by (auto simp: set_user_token_def joined_set_user_token_loop split: sum.splits)

lemma joined_set_premium_loop:
  "set_premium_loop now days expiry uid users = Inr users' \<Longrightarrow>
     check_user_joined_channels v users' = check_user_joined_channels v users"
proof (induction users arbitrary: users')
  case Nil
  then show ?case by (auto split: sum.splits if_splits)
next
  case (Cons a users)
  show ?case
  proof (cases "user_id a = uid")
    case True
    with Cons.prems show ?thesis by (auto split: sum.splits if_splits)
  next
    case False
    with Cons.prems obtain rest where
      rest: "set_premium_loop now days expiry uid users = Inr rest" and
      users': "users' = a # rest"
      by (auto split: sum.splits)
    from Cons.IH [OF rest] users' show ?thesis by simp
  qed
qed

lemma joined_set_user_premium_days:
  "set_user_premium_days now uid days users = Inr users' \<Longrightarrow>
     check_user_joined_channels v users' = check_user_joined_channels v users"
  by (auto simp: set_user_premium_days_def split: sum.splits dest: joined_set_premium_loop)

lemma joined_remove_user_premium:
  "check_user_joined_channels v (fst (remove_user_premium uid users)) =
     check_user_joined_channels v users"
  by (induction users) (auto split: prod.splits)

lemma joined_set_user_joined_channels:
  "check_user_joined_channels v (set_user_joined_channels uid users) =
     (v = uid \<or> check_user_joined_channels v users)"
  by (induction users) auto

lemma joined_apply_op:
  "check_user_joined_channels v (apply_op now op users) =
     (check_user_joined_channels v users \<or> op = SetUserJoinedChannels v)"
proof (cases op)
  case (AddUser uid name)
  then show ?thesis by (simp add: joined_add_user)
next
  case (SetUserToken uid hours)
  then show ?thesis
    by (cases "set_user_token now uid hours users") (simp_all add: joined_set_user_token)
next
  case (SetUserJoinedChannels uid)
  then show ?thesis by (auto simp: joined_set_user_joined_channels)
next
  case (SetUserPremium uid months)
  then show ?thesis
    by (cases "set_user_premium_days now uid (months * 30) users")
      (simp_all add: set_user_premium_months joined_set_user_premium_days)
next
  case (SetUserPremiumDays uid days)
  then show ?thesis
    by (cases "set_user_premium_days now uid days users")
      (simp_all add: joined_set_user_premium_days)
next
  case (RemoveUserPremium uid)
  then show ?thesis by (simp add: joined_remove_user_premium)
qed

lemma joined_run_ops:
  "check_user_joined_channels v (run_ops ops users) =
     (check_user_joined_channels v users \<or> (\<exists>now. (now, SetUserJoinedChannels v) \<in> set ops))"
proof (induction ops arbitrary: users)
  case Nil
  then show ?case by simp
next
  case (Cons step ops)
  obtain now op where step: "step = (now, op)" by (cases step) auto
  from Cons.IH [of "apply_op now op users"] step show ?case
    by (auto simp: joined_apply_op)
qed

lemma add_user_absent:
  "lookup_user uid users = None \<Longrightarrow>
     add_user uid name users =
       users @ [\<lparr>user_id = uid, username = name, token_expiry = Null, is_active = False,
                 joined_channels = None, premium_expiry = None, is_premium = None\<rparr>]"
  by (induction users) (auto split: if_splits)

text \<open>
  C10.  The joined-channels check is false when the document has no record of the user
  and when the user's record lacks the key \<open>joined_channels\<close>; the records that
  \<open>add_user\<close> and \<open>set_user_token\<close> append for a new user lack it.  After
  \<open>set_user_joined_channels\<close> for the user the check is true.  Over any run of the
  operations that write the users document, the check is true at the end exactly when
  it was true at the start or \<open>set_user_joined_channels\<close> ran for this user: no other
  operation sets the flag, and none clears it.
\<close>

theorem joined_channels_flag:
  "(lookup_user uid users = None \<longrightarrow> check_user_joined_channels uid users = False) \<and>
   (\<forall>u. lookup_user uid users = Some u \<and> joined_channels u = None \<longrightarrow>
      check_user_joined_channels uid users = False) \<and>
   (lookup_user uid users = None \<longrightarrow>
      (\<forall>name. \<exists>u. add_user uid name users = users @ [u] \<and> joined_channels u = None) \<and>
      (\<forall>now hours users'. set_user_token now uid hours users = Inr users' \<longrightarrow>
         (\<exists>u. users' = users @ [u] \<and> joined_channels u = None))) \<and>
   check_user_joined_channels uid (set_user_joined_channels uid users) = True \<and>
   (\<forall>ops. check_user_joined_channels uid (run_ops ops users) =
      (check_user_joined_channels uid users \<or> (\<exists>now. (now, SetUserJoinedChannels uid) \<in> set ops)))"
proof (intro conjI)
  show "lookup_user uid users = None \<longrightarrow> check_user_joined_channels uid users = False"
    by (simp add: joined_lookup)
  show "\<forall>u. lookup_user uid users = Some u \<and> joined_channels u = None \<longrightarrow>
      check_user_joined_channels uid users = False"
    by (simp add: joined_lookup)
  show "lookup_user uid users = None \<longrightarrow>
      (\<forall>name. \<exists>u. add_user uid name users = users @ [u] \<and> joined_channels u = None) \<and>
      (\<forall>now hours users'. set_user_token now uid hours users = Inr users' \<longrightarrow>
         (\<exists>u. users' = users @ [u] \<and> joined_channels u = None))"
    by (auto simp: add_user_absent set_user_token_def set_user_token_loop_absent split: sum.splits)
  show "check_user_joined_channels uid (set_user_joined_channels uid users) = True"
    by (simp add: joined_set_user_joined_channels)
  show "\<forall>ops. check_user_joined_channels uid (run_ops ops users) =
      (check_user_joined_channels uid users \<or> (\<exists>now. (now, SetUserJoinedChannels uid) \<in> set ops))"
    by (simp add: joined_run_ops)
qed


theorem joined_channels_flag_witness:
  "lookup_user 7 [] = None \<and>
   check_user_joined_channels 7 [] = False \<and>
   lookup_user 7 [\<lparr>user_id = 7, username = None, token_expiry = Null, is_active = False,
                    joined_channels = None, premium_expiry = None, is_premium = None\<rparr>] =
     Some \<lparr>user_id = 7, username = None, token_expiry = Null, is_active = False,
            joined_channels = None, premium_expiry = None, is_premium = None\<rparr> \<and>
   check_user_joined_channels 7
     [\<lparr>user_id = 7, username = None, token_expiry = Null, is_active = False,
       joined_channels = None, premium_expiry = None, is_premium = None\<rparr>] = False \<and>
   check_user_joined_channels 7
     (run_ops [(new_year_2025, AddUser 7 None), (new_year_2025, SetUserToken 7 24),
               (new_year_2025, SetUserPremiumDays 7 30), (new_year_2025, SetUserJoinedChannels 8)] []) = False \<and>
   check_user_joined_channels 7
     (run_ops [(new_year_2025, AddUser 7 None), (new_year_2025, SetUserJoinedChannels 7),
               (new_year_2025, RemoveUserPremium 7)] []) = True"
proof -
  let ?u = "\<lparr>user_id = 7, username = None, token_expiry = Null, is_active = False,
              joined_channels = None, premium_expiry = None, is_premium = None\<rparr>"
  note empty = joined_channels_flag [of 7 "[]"]
  note single = joined_channels_flag [of 7 "[?u]"]
  have absent: "lookup_user 7 [] = None" by simp
  have present: "lookup_user 7 [?u] = Some ?u \<and> joined_channels ?u = None" by simp
  from empty absent have no_record: "check_user_joined_channels 7 [] = False" by blast
  from single present have no_key: "check_user_joined_channels 7 [?u] = False" by blast
  from empty have runs: "\<forall>ops. check_user_joined_channels 7 (run_ops ops []) =
      (check_user_joined_channels 7 [] \<or> (\<exists>now. (now, SetUserJoinedChannels 7) \<in> set ops))"
    by blast
  let ?quiet = "[(new_year_2025, AddUser 7 None), (new_year_2025, SetUserToken 7 24),
                 (new_year_2025, SetUserPremiumDays 7 30), (new_year_2025, SetUserJoinedChannels 8)]"
  let ?joined = "[(new_year_2025, AddUser 7 None), (new_year_2025, SetUserJoinedChannels 7),
                 (new_year_2025, RemoveUserPremium 7)]"
  from runs have "check_user_joined_channels 7 (run_ops ?quiet []) =
      (check_user_joined_channels 7 [] \<or> (\<exists>now. (now, SetUserJoinedChannels 7) \<in> set ?quiet))"
    by (rule spec)
  also from no_record have "\<dots> = False" by simp
  finally have never: "check_user_joined_channels 7 (run_ops ?quiet []) = False" .
  from runs have "check_user_joined_channels 7 (run_ops ?joined []) =
      (check_user_joined_channels 7 [] \<or> (\<exists>now. (now, SetUserJoinedChannels 7) \<in> set ?joined))"
    by (rule spec)
  also have "\<dots> = True" by simp
  finally have after: "check_user_joined_channels 7 (run_ops ?joined []) = True" .
  from absent present no_record no_key never after show ?thesis
    by (simp del: run_ops.simps)
qed

section \<open>The deep-link parameter of the start command\<close>

lemma py_int_error: "py_int s = Inl e \<Longrightarrow> e = ValueError"
  by (auto simp: py_int_def Let_def split: option.splits)

lemma split_char_nonempty: "split_char sep s \<noteq> []"
  by (induction s) (auto split: list.splits)

lemma split_char_prefix:
  "sep \<notin> set p \<Longrightarrow> split_char sep (p @ sep # rest) = p # split_char sep rest"
  by (induction p) (auto split: list.splits)


lemma token_prefix_split:
  "split_char CHR ''_'' (''token'' @ CHR ''_'' # rest) = ''token'' # split_char CHR ''_'' rest"
  by (rule split_char_prefix) simp

lemma token_param_has_part:
  assumes "startswith param ''token_''"
  shows "\<exists>part. index1 (split_char CHR ''_'' param) = Inr part"
proof -
  have "take 6 param @ drop 6 param = param" by (rule append_take_drop_id)
  moreover have len: "length ''token_'' = 6" by simp
  from assms have "take (length ''token_'') param = ''token_''" by (simp only: startswith_def)
  then have "take 6 param = ''token_''" by (simp only: len)
  ultimately have shape: "param = ''token'' @ CHR ''_'' # drop 6 param"
    by simp
  obtain p ps where parts: "split_char CHR ''_'' (drop 6 param) = p # ps"
    using split_char_nonempty [of "CHR ''_''" "drop 6 param"]
    by (cases "split_char CHR ''_'' (drop 6 param)") auto
  from token_prefix_split [of "drop 6 param"] parts
  have "split_char CHR ''_'' (''token'' @ CHR ''_'' # drop 6 param) = ''token'' # p # ps"
    by (simp only:)
  with shape have "split_char CHR ''_'' param = ''token'' # p # ps" by (simp only:)
  then show ?thesis by (simp add: index1_def)
qed

lemma welcome_flow_not_refreshed: "welcome_flow now uid users \<noteq> Inr TokenRefreshed"
  by (auto simp: welcome_flow_def split: sum.splits)

lemma video_param_not_refreshed: "video_param now uid param users vids \<noteq> Inr TokenRefreshed"
  by (auto simp: video_param_def split: sum.splits option.splits)

lemma token_param_mismatch:
  assumes "startswith param ''token_''" and "token_param_id param \<noteq> Some uid"
  shows "token_param now uid param users = (users, welcome_flow now uid users)"
proof -
  from token_param_has_part [OF assms(1)] obtain part
    where part: "index1 (split_char CHR ''_'' param) = Inr part" by blast
  show ?thesis
  proof (cases "py_int part")
    case (Inl e)
    then have "e = ValueError" by (rule py_int_error)
    with part Inl show ?thesis by (simp add: token_param_def)
  next
    case (Inr i)
    with part assms(2) have "uid \<noteq> i" by (auto simp: token_param_id_def)
    with part Inr show ?thesis by (simp add: token_param_def)
  qed
qed

lemma token_param_refreshed:
  assumes "snd (token_param now uid param users) = Inr TokenRefreshed"
  shows "token_param_id param = Some uid"
  using assms welcome_flow_not_refreshed [of now uid users]
  by (auto simp: token_param_def token_param_id_def split: sum.splits if_splits)

lemma start_command_plain:
  "start_command now uid name [] users vids =
     (add_user uid name users,
      if check_user_premium now uid (add_user uid name users)
      then Inr (PremiumGreeting
             (case get_premium_expiry uid (add_user uid name users) of
                Some e \<Rightarrow> (e - now) div day_us | None \<Rightarrow> 0))
      else welcome_flow now uid (add_user uid name users))"
  by (simp add: start_command_def Let_def)

text \<open>
  C8.  When the first argument of \<open>/start\<close> begins with \<open>token_\<close> and the identity it
  names is not the requesting user's (or it names none), the handler does exactly what
  it does for \<open>/start\<close> without arguments: the same reply, the same users document,
  which is the one \<open>add_user\<close> left, and no token refresh.  Conversely the handler
  answers with the token refresh only when the first argument begins with \<open>token_\<close>
  and names the requesting user.
\<close>

theorem token_mismatch_ignored:
  "(startswith param ''token_'' \<and> token_param_id param \<noteq> Some uid \<longrightarrow>
      start_command now uid name (param # rest) users vids = start_command now uid name [] users vids \<and>
      fst (start_command now uid name (param # rest) users vids) = add_user uid name users \<and>
      snd (start_command now uid name (param # rest) users vids) \<noteq> Inr TokenRefreshed) \<and>
   (snd (start_command now uid name args users vids) = Inr TokenRefreshed \<longrightarrow>
      (\<exists>param rest. args = param # rest \<and> startswith param ''token_'' \<and>
         token_param_id param = Some uid))"
proof (intro conjI impI)
  assume mismatch: "startswith param ''token_'' \<and> token_param_id param \<noteq> Some uid"
  then have tp: "token_param now uid param (add_user uid name users) =
      (add_user uid name users, welcome_flow now uid (add_user uid name users))"
    by (simp add: token_param_mismatch)
  with mismatch show same:
    "start_command now uid name (param # rest) users vids = start_command now uid name [] users vids"
    by (simp add: start_command_def Let_def)
  then show "fst (start_command now uid name (param # rest) users vids) = add_user uid name users"
    by (simp add: start_command_plain)
  from same show "snd (start_command now uid name (param # rest) users vids) \<noteq> Inr TokenRefreshed"
    by (simp add: start_command_plain welcome_flow_not_refreshed)
next
  assume refreshed: "snd (start_command now uid name args users vids) = Inr TokenRefreshed"
  show "\<exists>param rest. args = param # rest \<and> startswith param ''token_'' \<and>
         token_param_id param = Some uid"
  proof (cases args)
    case Nil
    with refreshed show ?thesis
      by (simp add: start_command_plain welcome_flow_not_refreshed split: if_splits)
  next
    case (Cons param rest)
    with refreshed have "startswith param ''token_''"
      and "snd (token_param now uid param (add_user uid name users)) = Inr TokenRefreshed"
      by (auto simp: start_command_def Let_def welcome_flow_not_refreshed video_param_not_refreshed
          split: if_splits)
    with Cons show ?thesis by (auto dest: token_param_refreshed)
  qed
qed


theorem token_mismatch_ignored_witness:
  "startswith ''token_8'' ''token_'' \<and> token_param_id ''token_8'' \<noteq> Some 7 \<and>
   start_command new_year_2025 7 None [''token_8''] [] [] =
     start_command new_year_2025 7 None [] [] [] \<and>
   snd (start_command new_year_2025 7 None [''token_8''] [] []) = Inr JoinChannelsPrompt \<and>
   snd (start_command new_year_2025 7 None [''token_7''] [] []) = Inr TokenRefreshed \<and>
   (\<exists>param rest. [''token_7''] = param # rest \<and> startswith param ''token_'' \<and>
      token_param_id param = Some 7)"
proof -
  have prefix: "startswith ''token_8'' ''token_''" by code_simp
  have other: "token_param_id ''token_8'' \<noteq> Some 7" by code_simp
  have refreshed: "snd (start_command new_year_2025 7 None [''token_7''] [] []) = Inr TokenRefreshed"
    by code_simp
  have plain: "snd (start_command new_year_2025 7 None [] [] []) = Inr JoinChannelsPrompt"
    by code_simp
  note t = token_mismatch_ignored [of "''token_8''" 7 new_year_2025 None "[]" "[]" "[]" "[''token_7'']"]
  from t prefix other have same:
    "start_command new_year_2025 7 None [''token_8''] [] [] = start_command new_year_2025 7 None [] [] []"
    by blast
  with plain have prompt: "snd (start_command new_year_2025 7 None [''token_8''] [] []) = Inr JoinChannelsPrompt"
    by (simp only:)
  from t refreshed have named: "\<exists>param rest. [''token_7''] = param # rest \<and>
      startswith param ''token_'' \<and> token_param_id param = Some 7"
    by blast
  from prefix other same prompt refreshed named show ?thesis by (intro conjI)
qed

section \<open>Malformed input\<close>

text \<open>
  C7 (the code departs from it).  The claim is that no inbound interaction and no stored
  record makes an operation raise: a malformed id in a deep-link parameter and a
  malformed expiry timestamp give a result or a fallback.  On \<open>video_abc\<close> from a user
  who has joined the channels the handler raises \<open>ValueError\<close> from \<open>int\<close>; on a stored
  token expiry that does not parse \<open>check_user_token\<close> raises \<open>ValueError\<close>, and with
  it a plain \<open>/start\<close> of that user.  The neighbouring paths guard the same errors:
  on \<open>token_abc\<close> the handler goes on to the welcome flow, and \<open>check_user_premium\<close>
  and \<open>get_premium_expiry\<close> answer false and \<open>None\<close> on a premium expiry that does not
  parse.
\<close>

theorem malformed_input_raises:
  "start_command new_year_2025 7 None [''video_abc'']
     [\<lparr>user_id = 7, username = None, token_expiry = Null, is_active = False,
       joined_channels = Some True, premium_expiry = None, is_premium = None\<rparr>] [] =
     ([\<lparr>user_id = 7, username = None, token_expiry = Null, is_active = False,
        joined_channels = Some True, premium_expiry = None, is_premium = None\<rparr>], Inl ValueError) \<and>
   check_user_token new_year_2025 7
     [\<lparr>user_id = 7, username = None, token_expiry = Malformed ''tomorrow'', is_active = True,
       joined_channels = Some True, premium_expiry = None, is_premium = None\<rparr>] = Inl ValueError \<and>
   start_command new_year_2025 7 None []
     [\<lparr>user_id = 7, username = None, token_expiry = Malformed ''tomorrow'', is_active = True,
       joined_channels = Some True, premium_expiry = None, is_premium = None\<rparr>] [] =
     ([\<lparr>user_id = 7, username = None, token_expiry = Malformed ''tomorrow'', is_active = True,
        joined_channels = Some True, premium_expiry = None, is_premium = None\<rparr>], Inl ValueError) \<and>
   start_command new_year_2025 7 None [''token_abc'']
     [\<lparr>user_id = 7, username = None, token_expiry = Null, is_active = False,
       joined_channels = Some True, premium_expiry = None, is_premium = None\<rparr>] [] =
     ([\<lparr>user_id = 7, username = None, token_expiry = Null, is_active = False,
        joined_channels = Some True, premium_expiry = None, is_premium = None\<rparr>], Inr TokenExpired) \<and>
   check_user_premium new_year_2025 7
     [\<lparr>user_id = 7, username = None, token_expiry = Null, is_active = True,
       joined_channels = Some True, premium_expiry = Some (Malformed ''tomorrow''),
       is_premium = Some True\<rparr>] = False \<and>
   get_premium_expiry 7
     [\<lparr>user_id = 7, username = None, token_expiry = Null, is_active = True,
       joined_channels = Some True, premium_expiry = Some (Malformed ''tomorrow''),
       is_premium = Some True\<rparr>] = None"
  by (intro conjI; code_simp)

section \<open>Grants beyond the representable range\<close>

lemma set_user_token_error:
  "set_user_token now uid hours users = Inl e \<Longrightarrow> e = OverflowError"
  by (auto simp: set_user_token_def timedelta_hours_def make_timedelta_def dt_add_def
      split: sum.splits if_splits)

lemma set_user_token_unrepresentable:
  "\<not> representable (now + hours * hour_us) \<Longrightarrow> set_user_token now uid hours users = Inl OverflowError"
  by (auto simp: set_user_token_def timedelta_hours_def make_timedelta_def dt_add_def
      split: sum.splits)

lemma set_user_premium_days_unrepresentable:
  "\<not> representable (now + days * day_us) \<Longrightarrow>
     set_user_premium_days now uid days users = Inl OverflowError"
  by (auto simp: set_user_premium_days_def timedelta_days_def make_timedelta_def dt_add_def
      split: sum.splits)

end
